theory Spec2Isabelle
  imports Main "HOL-Library.Word"
begin

section \<open>Data model\<close>

text \<open>
  The hook runner of pre-commit-go (\<^verbatim>\<open>runChecks\<close>, \<^verbatim>\<open>runPreCommit\<close>,
  \<^verbatim>\<open>runPrePush\<close>). \<^verbatim>\<open>scm.Commit\<close> is a Go string, \<^verbatim>\<open>time.Duration\<close> an
  int64 count of nanoseconds, and a Go \<^verbatim>\<open>error\<close> is an interface value, \<open>nil\<close> being
  \<open>None\<close>.
\<close>

type_synonym commit = string
type_synonym duration = "64 word"

datatype mode = PreCommit | PrePush | ContinuousIntegration | Lint

text \<open>
  The error values the three functions build themselves, \<^verbatim>\<open>io.EOF\<close>, and the errors
  that come back from a collaborator (repository backend, check, reader).
  \<open>UnexpectedStdin line\<close> is \<^verbatim>\<open>fmt.Errorf("unexpected stdin for pre-push: %q", line)\<close>,
  \<open>CheckTook name d\<close> is \<^verbatim>\<open>fmt.Errorf("check %s took %1.2fs", name, d.Seconds())\<close> and
  \<open>ChecksFailed d\<close> is \<^verbatim>\<open>fmt.Errorf("checks failed in %1.2fs", d.Seconds())\<close>.
\<close>

datatype error =
    EOF
  | UnexpectedStdin string
  | CheckTook string duration
  | ChecksFailed duration
  | External string

definition gitNilCommit :: commit where
  "gitNilCommit = ''0000000000000000000000000000000000000000''"

text \<open>
  \<^verbatim>\<open>checks.Check\<close>: its name, and what \<^verbatim>\<open>check.Run(change)\<close> returns and how long the
  call takes on the wall clock, both depending on the change (an \<^verbatim>\<open>scm.Change\<close>
  interface value, \<open>None\<close> when nil) and on the state of the repository. A check never
  modifies the repository.
\<close>

record ('r, 'c) Check =
  GetName :: string
  Run :: "'c option \<Rightarrow> 'r \<Rightarrow> error option"
  RunTime :: "'c option \<Rightarrow> 'r \<Rightarrow> duration"

text \<open>
  \<^verbatim>\<open>checks.Config\<close>, as far as the runner reads it: the ignore patterns and
  \<^verbatim>\<open>EnabledChecks(modes)\<close>, the enabled checks with the maximum duration in seconds
  (a Go \<^verbatim>\<open>int\<close>, 64 bits wide).
\<close>

record ('r, 'c) Config =
  IgnorePatterns :: "string list"
  EnabledChecks :: "mode list \<Rightarrow> ('r, 'c) Check list \<times> 64 word"

text \<open>
  \<^verbatim>\<open>scm.Repo\<close>: every method takes the state of the repository and returns its results
  with the new state. \<open>Current\<close> and \<open>GitInitialCommit\<close> are the two constants of
  package \<^verbatim>\<open>scm\<close> the hooks pass to \<^verbatim>\<open>Between\<close>.
\<close>

record ('r, 'c) Repo =
  HEAD :: "'r \<Rightarrow> commit"
  Ref :: "'r \<Rightarrow> string"
  Stash :: "'r \<Rightarrow> (bool \<times> error option) \<times> 'r"
  Restore :: "'r \<Rightarrow> error option \<times> 'r"
  Checkout :: "string \<Rightarrow> 'r \<Rightarrow> error option \<times> 'r"
  Between :: "commit \<Rightarrow> commit \<Rightarrow> string list \<Rightarrow> 'r \<Rightarrow> ('c option \<times> error option) \<times> 'r"
  Current :: commit
  GitInitialCommit :: commit

text \<open>
  What a hook does to its collaborators, in order: each call with its arguments and
  what it returned.
\<close>

datatype 'c event =
    EvStash bool "error option"
  | EvRestore "error option"
  | EvCheckout string "error option"
  | EvBetween commit commit "string list" "'c option" "error option"
  | EvRunChecks "'c option" "mode list"

record ('r, 'c) world =
  state :: 'r
  trace :: "'c event list"

section \<open>The pre-push line pattern\<close>

text \<open>
  \<^verbatim>\<open>rePrePush = ^(.+?) ([0-9a-f]{40}) (.+?) ([0-9a-f]{40})$\<close>. A dot matches every
  character but a newline. The pattern is anchored at both ends, so the fourth group
  is the last 40 characters and the third group is what lies between; the first
  group is lazy, so it is the shortest prefix after which the rest matches.
\<close>

definition isHex :: "char \<Rightarrow> bool" where
  "isHex c \<longleftrightarrow> c \<in> set ''0123456789abcdef''"

definition hex40 :: "string \<Rightarrow> bool" where
  "hex40 s \<longleftrightarrow> length s = 40 \<and> list_all isHex s"

definition noNewline :: "string \<Rightarrow> bool" where
  "noNewline s \<longleftrightarrow> list_all (\<lambda>c. c \<noteq> CHR 0x0A) s"

definition matchRest :: "string \<Rightarrow> (string \<times> string \<times> string) option" where
  "matchRest t =
     (let n = length t in
      if 83 \<le> n \<and> hex40 (take 40 t) \<and> t ! 40 = CHR '' ''
         \<and> noNewline (take (n - 82) (drop 41 t))
         \<and> t ! (n - 41) = CHR '' '' \<and> hex40 (drop (n - 40) t)
      then Some (take 40 t, take (n - 82) (drop 41 t), drop (n - 40) t)
      else None)"

fun matchFrom :: "string \<Rightarrow> string \<Rightarrow> (string \<times> string \<times> string \<times> string) option" where
  "matchFrom g [] = None"
| "matchFrom g (c # t) =
     (case (if g \<noteq> [] \<and> c = CHR '' '' then matchRest t else None) of
        Some (m2, m3, m4) \<Rightarrow> Some (g, m2, m3, m4)
      | None \<Rightarrow> if c = CHR 0x0A then None else matchFrom (g @ [c]) t)"

text \<open>
  \<^verbatim>\<open>rePrePush.FindStringSubmatch(s)\<close>: \<open>None\<close> is the nil slice of a failed match,
  \<open>Some (m1, m2, m3, m4)\<close> the five-element slice \<open>[s, m1, m2, m3, m4]\<close>.
\<close>

definition FindStringSubmatch :: "string \<Rightarrow> (string \<times> string \<times> string \<times> string) option" where
  "FindStringSubmatch s = matchFrom [] s"

section \<open>runChecks\<close>

definition second :: duration where
  "second = 1000000000"

text \<open>
  \<^verbatim>\<open>callRun\<close>: the error of \<^verbatim>\<open>check.Run(change)\<close> and the time the call took. (The
  lock a \<^verbatim>\<open>sync.Locker\<close> check takes around the call changes neither.)
\<close>

definition callRun :: "('r, 'c) Check \<Rightarrow> 'c option \<Rightarrow> 'r \<Rightarrow> error option \<times> duration" where
  "callRun check change r = (Run check change r, RunTime check change r)"

text \<open>
  The channel \<^verbatim>\<open>errs\<close> is buffered with room for \<open>cap\<close> errors, and nothing receives
  from it before \<^verbatim>\<open>wg.Wait()\<close> has returned. So a send finds room, or never
  completes (\<open>None\<close>): then its goroutine never reaches \<^verbatim>\<open>wg.Done()\<close> and
  \<^verbatim>\<open>runChecks\<close> never returns.
\<close>

definition send :: "nat \<Rightarrow> error list \<Rightarrow> error \<Rightarrow> error list option" where
  "send cap errs e = (if length errs < cap then Some (errs @ [e]) else None)"

text \<open>
  The body of the goroutine started for one check: the error of the check is sent if
  there is one, and then the "took too long" error if the duration is above
  \<^verbatim>\<open>time.Duration(maxDuration)*time.Second\<close> (an int64 product and a signed comparison).
\<close>

definition tooLong :: "64 word \<Rightarrow> duration \<Rightarrow> bool" where
  "tooLong maxDuration d \<longleftrightarrow> maxDuration * second <s d"

definition goroutine ::
  "64 word \<Rightarrow> 'c option \<Rightarrow> 'r \<Rightarrow> nat \<Rightarrow> ('r, 'c) Check \<Rightarrow> error list \<Rightarrow> error list option" where
  "goroutine maxDuration change r cap check errs =
     (case callRun check change r of (err, d) \<Rightarrow>
        (case (case err of Some e \<Rightarrow> send cap errs e | None \<Rightarrow> Some errs) of
           None \<Rightarrow> None
         | Some errs1 \<Rightarrow>
             if tooLong maxDuration d then send cap errs1 (CheckTook (GetName check) d)
             else Some errs1))"

text \<open>
  The goroutines of all enabled checks. They run concurrently; the list is taken in
  the order in which they reach the channel. Whether every send finds room does not
  depend on that order, only the order of the errors in the channel does.
\<close>

fun goroutines ::
  "64 word \<Rightarrow> 'c option \<Rightarrow> 'r \<Rightarrow> nat \<Rightarrow> ('r, 'c) Check list \<Rightarrow> error list \<Rightarrow> error list option" where
  "goroutines maxDuration change r cap [] errs = Some errs"
| "goroutines maxDuration change r cap (c # cs) errs =
     (case goroutine maxDuration change r cap c errs of
        None \<Rightarrow> None
      | Some errs1 \<Rightarrow> goroutines maxDuration change r cap cs errs1)"

text \<open>
  The loop after \<^verbatim>\<open>wg.Wait()\<close>: every error in the channel is received into \<open>err\<close>
  and printed; the result is the errors printed and the last value of \<open>err\<close>.
\<close>

fun drain :: "error list \<Rightarrow> error option \<Rightarrow> error list \<Rightarrow> error list \<times> error option" where
  "drain [] err printed = (printed, err)"
| "drain (e # errs) err printed = drain errs (Some e) (printed @ [e])"

text \<open>
  \<^verbatim>\<open>runChecks\<close>. \<open>elapsed r\<close> is \<^verbatim>\<open>time.Now().Sub(start)\<close> as read when the channel is
  empty. The result is \<open>None\<close> when the call never returns, else the errors printed
  and the error returned.
\<close>

definition runChecks ::
  "('r \<Rightarrow> duration) \<Rightarrow> ('r, 'c) Config \<Rightarrow> 'c option \<Rightarrow> mode list \<Rightarrow> 'r
     \<Rightarrow> (error list \<times> error option) option" where
  "runChecks elapsed config change modes r =
     (case EnabledChecks config modes of (enabledChecks, maxDuration) \<Rightarrow>
        (case goroutines maxDuration change r (length enabledChecks) enabledChecks [] of
           None \<Rightarrow> None
         | Some errs \<Rightarrow>
             (case drain errs None [] of (printed, err) \<Rightarrow>
                Some (printed,
                      if err \<noteq> None then Some (ChecksFailed (elapsed r)) else err))))"

section \<open>The repository calls of the hooks\<close>

definition doStash :: "('r, 'c) Repo \<Rightarrow> ('r, 'c) world \<Rightarrow> (bool \<times> error option) \<times> ('r, 'c) world" where
  "doStash repo w =
     (case Stash repo (state w) of ((stashed, err), r) \<Rightarrow>
        ((stashed, err), \<lparr>state = r, trace = trace w @ [EvStash stashed err]\<rparr>))"

definition doRestore :: "('r, 'c) Repo \<Rightarrow> ('r, 'c) world \<Rightarrow> error option \<times> ('r, 'c) world" where
  "doRestore repo w =
     (case Restore repo (state w) of (err, r) \<Rightarrow>
        (err, \<lparr>state = r, trace = trace w @ [EvRestore err]\<rparr>))"

definition doCheckout :: "('r, 'c) Repo \<Rightarrow> string \<Rightarrow> ('r, 'c) world \<Rightarrow> error option \<times> ('r, 'c) world" where
  "doCheckout repo p w =
     (case Checkout repo p (state w) of (err, r) \<Rightarrow>
        (err, \<lparr>state = r, trace = trace w @ [EvCheckout p err]\<rparr>))"

definition doBetween ::
  "('r, 'c) Repo \<Rightarrow> commit \<Rightarrow> commit \<Rightarrow> string list \<Rightarrow> ('r, 'c) world
     \<Rightarrow> ('c option \<times> error option) \<times> ('r, 'c) world" where
  "doBetween repo from to ignore w =
     (case Between repo from to ignore (state w) of ((change, err), r) \<Rightarrow>
        ((change, err), \<lparr>state = r, trace = trace w @ [EvBetween from to ignore change err]\<rparr>))"

text \<open>
  A call of \<^verbatim>\<open>runChecks\<close> from a hook: \<open>None\<close> when it never returns, else its error.
\<close>

definition doRunChecks ::
  "('r \<Rightarrow> duration) \<Rightarrow> ('r, 'c) Config \<Rightarrow> 'c option \<Rightarrow> mode list \<Rightarrow> ('r, 'c) world
     \<Rightarrow> error option option \<times> ('r, 'c) world" where
  "doRunChecks elapsed config change modes w =
     (map_option snd (runChecks elapsed config change modes (state w)),
      w\<lparr>trace := trace w @ [EvRunChecks change modes]\<rparr>)"

section \<open>runPreCommit\<close>

text \<open>
  The result is \<open>None\<close> when the hook never returns (its \<^verbatim>\<open>runChecks\<close> does not), else
  the error returned.
\<close>

definition runPreCommit ::
  "('r \<Rightarrow> duration) \<Rightarrow> ('r, 'c) Repo \<Rightarrow> ('r, 'c) Config \<Rightarrow> ('r, 'c) world
     \<Rightarrow> error option option \<times> ('r, 'c) world" where
  "runPreCommit elapsed repo config w =
     (case doStash repo w of ((stashed, err), w1) \<Rightarrow>
        if err \<noteq> None then (Some err, w1)
        else
          (case doBetween repo (Current repo) (HEAD repo (state w1)) (IgnorePatterns config) w1 of
             ((change, err1), w2) \<Rightarrow>
               (case (if change \<noteq> None
                      then doRunChecks elapsed config change [PreCommit] w2
                      else (Some err1, w2)) of
                  (None, w3) \<Rightarrow> (None, w3)
                | (Some err2, w3) \<Rightarrow>
                    if stashed
                    then (case doRestore repo w3 of (err3, w4) \<Rightarrow>
                            (Some (if err2 = None then err3 else err2), w4))
                    else (Some err2, w3))))"

section \<open>runPrePush\<close>

text \<open>
  Standard input as \<^verbatim>\<open>bio.ReadString('\n')\<close> hands it out: the complete lines, each
  without its final newline here, and then the error of the read that finds no
  further newline (\<^verbatim>\<open>io.EOF\<close> at the end of the stream; what was read with it is
  dropped by the loop).
\<close>

record stdin =
  lines :: "string list"
  readErr :: error

record loopvars =
  curr :: commit
  stashed :: bool
  triedToStash :: bool

text \<open>How one pass through the loop body ends.\<close>

datatype flow = Continue | Return "error option" | Never

text \<open>
  The block under \<^verbatim>\<open>if to != curr\<close>: stash, at the first time only, and check out
  \<open>to\<close>. Its result is the error that makes the body return, if any.
\<close>

definition switchTo ::
  "('r, 'c) Repo \<Rightarrow> commit \<Rightarrow> loopvars \<Rightarrow> ('r, 'c) world
     \<Rightarrow> error option \<times> loopvars \<times> ('r, 'c) world" where
  "switchTo repo to v w =
     (if to \<noteq> curr v
      then
        (case (if \<not> triedToStash v
               then (case doStash repo w of ((s, err), w1) \<Rightarrow>
                       (err, v\<lparr>stashed := s, triedToStash := True\<rparr>, w1))
               else (None, v, w)) of
           (Some err, v1, w1) \<Rightarrow> (Some err, v1, w1)
         | (None, v1, w1) \<Rightarrow>
             (case doCheckout repo to w1 of (err, w2) \<Rightarrow> (err, v1\<lparr>curr := to\<rparr>, w2)))
      else (None, v, w))"

text \<open>
  The loop body for one line read without error; \<open>line\<close> is \<^verbatim>\<open>line[:len(line)-1]\<close>.
\<close>

definition body ::
  "('r \<Rightarrow> duration) \<Rightarrow> ('r, 'c) Repo \<Rightarrow> ('r, 'c) Config \<Rightarrow> string \<Rightarrow> loopvars \<Rightarrow> ('r, 'c) world
     \<Rightarrow> flow \<times> loopvars \<times> ('r, 'c) world" where
  "body elapsed repo config line v w =
     (case FindStringSubmatch line of
        None \<Rightarrow> (Return (Some (UnexpectedStdin (line @ [CHR 0x0A]))), v, w)
      | Some (m1, to, m3, from) \<Rightarrow>
          if to = gitNilCommit then (Continue, v, w)
          else
            (case switchTo repo to v w of
               (Some err, v2, w2) \<Rightarrow> (Return (Some err), v2, w2)
             | (None, v2, w2) \<Rightarrow>
                 (case doBetween repo (if from = gitNilCommit then GitInitialCommit repo else from)
                         to (IgnorePatterns config) w2 of
                    ((change, err), w3) \<Rightarrow>
                      if err \<noteq> None then (Return err, v2, w3)
                      else
                        (case doRunChecks elapsed config change [PrePush] w3 of
                           (None, w4) \<Rightarrow> (Never, v2, w4)
                         | (Some err4, w4) \<Rightarrow>
                             if err4 \<noteq> None then (Return err4, v2, w4)
                             else (Continue, v2, w4)))))"

text \<open>
  The \<^verbatim>\<open>for\<close> loop: it ends at the first read error, which \<^verbatim>\<open>io.EOF\<close> turns into nil
  after the loop, or at the first \<^verbatim>\<open>return\<close> of the body. The result is \<open>None\<close> when
  the loop never ends (a \<^verbatim>\<open>runChecks\<close> does not return), else the value of \<open>err\<close> at
  the \<^verbatim>\<open>return\<close>.
\<close>

fun loop ::
  "('r \<Rightarrow> duration) \<Rightarrow> ('r, 'c) Repo \<Rightarrow> ('r, 'c) Config \<Rightarrow> error \<Rightarrow> string list \<Rightarrow> loopvars
     \<Rightarrow> ('r, 'c) world \<Rightarrow> error option option \<times> loopvars \<times> ('r, 'c) world" where
  "loop elapsed repo config rerr [] v w =
     (Some (if rerr = EOF then None else Some rerr), v, w)"
| "loop elapsed repo config rerr (line # rest) v w =
     (case body elapsed repo config line v w of
        (Continue, v1, w1) \<Rightarrow> loop elapsed repo config rerr rest v1 w1
      | (Return err, v1, w1) \<Rightarrow> (Some err, v1, w1)
      | (Never, v1, w1) \<Rightarrow> (None, v1, w1))"

text \<open>
  The deferred function: it reads \<open>curr\<close> and \<open>stashed\<close> as the body left them and
  the named result \<open>err\<close>, and returns the final \<open>err\<close>.
\<close>

definition deferred ::
  "('r, 'c) Repo \<Rightarrow> commit \<Rightarrow> string \<Rightarrow> loopvars \<Rightarrow> error option \<Rightarrow> ('r, 'c) world
     \<Rightarrow> error option \<times> ('r, 'c) world" where
  "deferred repo previous previousRef v err w =
     (case (if curr v \<noteq> previous
            then (case doCheckout repo (if previousRef = [] then previous else previousRef) w of
                    (err2, w1) \<Rightarrow> (if err = None then err2 else err, w1))
            else (err, w)) of
        (err1, w1) \<Rightarrow>
          if stashed v
          then (case doRestore repo w1 of (err2, w2) \<Rightarrow> (if err1 = None then err2 else err1, w2))
          else (err1, w1))"

definition runPrePush ::
  "('r \<Rightarrow> duration) \<Rightarrow> ('r, 'c) Repo \<Rightarrow> ('r, 'c) Config \<Rightarrow> stdin \<Rightarrow> ('r, 'c) world
     \<Rightarrow> error option option \<times> ('r, 'c) world" where
  "runPrePush elapsed repo config inp w =
     (let previous = HEAD repo (state w);
          previousRef = Ref repo (state w)
      in case loop elapsed repo config (readErr inp) (lines inp)
                \<lparr>curr = previous, stashed = False, triedToStash = False\<rparr> w of
           (None, v, w1) \<Rightarrow> (None, w1)
         | (Some err, v, w1) \<Rightarrow>
             (case deferred repo previous previousRef v err w1 of (err1, w2) \<Rightarrow> (Some err1, w2)))"

section \<open>Observations on a trace\<close>

text \<open>
  Read off the calls a hook has made: how often \<^verbatim>\<open>Stash()\<close> was called, whether a
  call of it reported that it stashed something, and the argument of the last
  \<^verbatim>\<open>Checkout\<close> (\<open>c\<close> when there was none).
\<close>

fun isStash :: "'c event \<Rightarrow> bool" where
  "isStash (EvStash s e) = True"
| "isStash ev = False"

fun madeStash :: "'c event \<Rightarrow> bool" where
  "madeStash (EvStash s e) = s"
| "madeStash ev = False"

fun lastCheckout :: "commit \<Rightarrow> 'c event list \<Rightarrow> commit" where
  "lastCheckout c [] = c"
| "lastCheckout c (EvCheckout p e # evs) = lastCheckout p evs"
| "lastCheckout c (ev # evs) = lastCheckout c evs"

definition stashMade :: "'c event list \<Rightarrow> bool" where
  "stashMade evs = list_ex madeStash evs"

definition stashCalls :: "'c event list \<Rightarrow> nat" where
  "stashCalls evs = length (filter isStash evs)"

text \<open>
  What the loop of \<^verbatim>\<open>runPrePush\<close> keeps true of its variables and of the calls made
  since the hook started, \<open>previous\<close> being the commit checked out at the start.
\<close>

definition loopInv :: "commit \<Rightarrow> loopvars \<Rightarrow> 'c event list \<Rightarrow> bool" where
  "loopInv previous v evs \<longleftrightarrow>
     curr v = lastCheckout previous evs \<and> stashed v = stashMade evs
     \<and> stashCalls evs \<le> (if triedToStash v then 1 else 0)"

text \<open>
  The errors the goroutine of one check sends, given room in the channel.
\<close>

definition failures :: "64 word \<Rightarrow> 'c option \<Rightarrow> 'r \<Rightarrow> ('r, 'c) Check \<Rightarrow> error list" where
  "failures maxDuration change r check =
     (case Run check change r of Some e \<Rightarrow> [e] | None \<Rightarrow> [])
     @ (if tooLong maxDuration (RunTime check change r)
        then [CheckTook (GetName check) (RunTime check change r)] else [])"

section \<open>Concrete collaborators for the examples\<close>

text \<open>
  A repository whose calls return fixed results, checks with a fixed outcome and
  duration, and a configuration that enables the same checks in every mode.
\<close>

definition stubRepo ::
  "commit \<Rightarrow> string \<Rightarrow> bool \<times> error option \<Rightarrow> error option \<Rightarrow> (string \<Rightarrow> error option)
     \<Rightarrow> (commit \<Rightarrow> commit \<Rightarrow> string list option \<times> error option) \<Rightarrow> (unit, string list) Repo" where
  "stubRepo h rf st rs co bt =
     \<lparr>HEAD = (\<lambda>r. h), Ref = (\<lambda>r. rf), Stash = (\<lambda>r. (st, r)), Restore = (\<lambda>r. (rs, r)),
      Checkout = (\<lambda>p r. (co p, r)), Between = (\<lambda>f t ig r. (bt f t, r)),
      Current = [], GitInitialCommit = ''4b825dc642cb6eb9a060e54bf8d69288fbee4904''\<rparr>"

definition stubCheck :: "string \<Rightarrow> error option \<Rightarrow> duration \<Rightarrow> (unit, string list) Check" where
  "stubCheck n e d = \<lparr>GetName = n, Run = (\<lambda>c r. e), RunTime = (\<lambda>c r. d)\<rparr>"

definition stubConfig :: "(unit, string list) Check list \<Rightarrow> 64 word \<Rightarrow> (unit, string list) Config" where
  "stubConfig cs m = \<lparr>IgnorePatterns = [], EnabledChecks = (\<lambda>ms. (cs, m))\<rparr>"

definition sha1 :: commit where
  "sha1 = ''1111111111111111111111111111111111111111''"

definition sha2 :: commit where
  "sha2 = ''2222222222222222222222222222222222222222''"

definition w0 :: "(unit, string list) world" where
  "w0 = \<lparr>state = (), trace = []\<rparr>"

definition sha3 :: commit where
  "sha3 = ''3333333333333333333333333333333333333333''"

definition passing :: "(unit, string list) Config" where
  "passing = stubConfig [stubCheck ''gofmt'' None 5] 10"

definition popFails :: "commit \<Rightarrow> (unit, string list) Repo" where
  "popFails h = stubRepo h ''refs/heads/master'' (True, None) (Some (External ''stash pop failed''))
     (\<lambda>p. None) (\<lambda>f t. (Some [''a.go''], None))"

definition newBranchThenGarbage :: stdin where
  "newBranchThenGarbage =
     \<lparr>lines = [''refs/heads/a 1111111111111111111111111111111111111111 refs/heads/a 0000000000000000000000000000000000000000'',
               ''refs/heads/a 1111 refs/heads/a 0000''],
      readErr = EOF\<rparr>"

definition twoUpdates :: stdin where
  "twoUpdates =
     \<lparr>lines = [''refs/heads/a 1111111111111111111111111111111111111111 refs/heads/a 0000000000000000000000000000000000000000'',
               ''refs/heads/b 2222222222222222222222222222222222222222 refs/heads/b 1111111111111111111111111111111111111111''],
      readErr = EOF\<rparr>"

text \<open>
  A small stand-in for a git work tree: the commit and the ref checked out (the ref
  is empty when the head is detached), the branches, whether there are uncommitted
  edits and whether edits are stashed away. Checking out a branch name attaches the
  head to it; checking out anything else, a commit, detaches it.
\<close>

record git =
  gitHead :: commit
  gitRef :: string
  gitBranches :: "(string \<times> commit) list"
  gitDirty :: bool
  gitStashed :: bool

definition gitRepo :: "(git, string list) Repo" where
  "gitRepo =
     \<lparr>HEAD = gitHead, Ref = gitRef,
      Stash = (\<lambda>g. ((gitDirty g, None), g\<lparr>gitDirty := False, gitStashed := gitDirty g\<rparr>)),
      Restore = (\<lambda>g. (None, g\<lparr>gitDirty := gitStashed g, gitStashed := False\<rparr>)),
      Checkout = (\<lambda>p g. (None,
         case map_of (gitBranches g) p of
           Some c \<Rightarrow> g\<lparr>gitHead := c, gitRef := p\<rparr>
         | None \<Rightarrow> g\<lparr>gitHead := p, gitRef := []\<rparr>)),
      Between = (\<lambda>f t ig g. ((Some [''a.go''], None), g)),
      Current = [], GitInitialCommit = ''4b825dc642cb6eb9a060e54bf8d69288fbee4904''\<rparr>"

definition onMaster :: "(git, string list) world" where
  "onMaster =
     \<lparr>state = \<lparr>gitHead = sha2, gitRef = ''refs/heads/master'',
                gitBranches = [(''refs/heads/master'', sha2), (''refs/heads/a'', sha1)],
                gitDirty = True, gitStashed = False\<rparr>,
      trace = []\<rparr>"

definition gitCheck :: "string \<Rightarrow> error option \<Rightarrow> duration \<Rightarrow> (git, string list) Check" where
  "gitCheck n e d = \<lparr>GetName = n, Run = (\<lambda>c r. e), RunTime = (\<lambda>c r. d)\<rparr>"

definition gitConfig :: "(git, string list) Check list \<Rightarrow> 64 word \<Rightarrow> (git, string list) Config" where
  "gitConfig cs m = \<lparr>IgnorePatterns = [], EnabledChecks = (\<lambda>ms. (cs, m))\<rparr>"

section \<open>Properties of runChecks\<close>

lemma drain_eq:
  "drain errs err printed = (printed @ errs, if errs = [] then err else Some (last errs))"
  by (induction errs arbitrary: err printed) auto

lemma goroutine_eq:
  "length errs \<le> cap \<Longrightarrow>
   goroutine m change r cap c errs =
     (if length errs + length (failures m change r c) \<le> cap
      then Some (errs @ failures m change r c) else None)"
  by (auto simp: goroutine_def callRun_def send_def failures_def split: option.splits)

lemma goroutines_eq:
  "length errs \<le> cap \<Longrightarrow>
   goroutines m change r cap cs errs =
     (if length errs + length (concat (map (failures m change r) cs)) \<le> cap
      then Some (errs @ concat (map (failures m change r) cs)) else None)"
  by (induction cs arbitrary: errs) (auto simp: goroutine_eq)

lemma runChecks_eq:
  assumes "EnabledChecks config modes = (cs, m)"
  shows "runChecks elapsed config change modes r =
     (let fs = concat (map (failures m change r) cs) in
      if length fs \<le> length cs
      then Some (fs, if fs = [] then None else Some (ChecksFailed (elapsed r)))
      else None)"
  using assms by (simp add: runChecks_def goroutines_eq drain_eq Let_def)

lemma failures_le_1:
  "\<not> (Run c change r \<noteq> None \<and> tooLong m (RunTime c change r)) \<Longrightarrow> length (failures m change r c) \<le> 1"
  by (auto simp: failures_def split: option.splits)

lemma concat_failures_le:
  "\<forall>c\<in>set cs. \<not> (Run c change r \<noteq> None \<and> tooLong m (RunTime c change r))
     \<Longrightarrow> length (concat (map (failures m change r) cs)) \<le> length cs"
proof (induction cs)
  case Nil
  then show ?case by simp
next
  case (Cons c cs)
  from Cons.prems have "\<not> (Run c change r \<noteq> None \<and> tooLong m (RunTime c change r))"
    by simp
  then have "length (failures m change r c) \<le> 1" by (rule failures_le_1)
  with Cons show ?case by simp
qed

lemma sint_second: "sint second = 1000000000"
  by (simp add: second_def)

lemma sint_budget:
  fixes m :: "64 word"
  assumes "- 9223372036 \<le> sint m" and "sint m \<le> 9223372036"
  shows "sint (m * second) = sint m * 1000000000"
proof -
  have "sint (m * second) = signed_take_bit 63 (sint m * sint second)"
    by (simp add: sint_word_ariths)
  also have "\<dots> = sint m * 1000000000"
    using assms by (simp add: sint_second signed_take_bit_int_eq_self)
  finally show ?thesis .
qed

lemma tooLong_iff:
  assumes "- 9223372036 \<le> sint m" and "sint m \<le> 9223372036"
  shows "tooLong m d \<longleftrightarrow> sint m * 1000000000 < sint d"
  using sint_budget [OF assms] by (simp add: tooLong_def word_sless_alt)

lemma sint_upper: "sint (d :: 64 word) < 9223372036854775808"
  using sint_lt [of d] by simp

lemma tooLong_if:
  assumes "- 9223372036 \<le> sint m" and "sint m * 1000000000 < sint d"
  shows "tooLong m d"
proof -
  have "sint m * 1000000000 < 9223372036854775808" using assms(2) sint_upper [of d] by linarith
  then have "sint m \<le> 9223372036" by linarith
  with assms show ?thesis by (simp add: tooLong_iff)
qed

text \<open>
  A check whose measured duration is above the maximum duration, in seconds, when
  \<^verbatim>\<open>runChecks\<close> returns: its "took" error has been printed and the result is an
  error, whatever \<^verbatim>\<open>check.Run\<close> returned. The maximum duration is one whose count of
  nanoseconds does not wrap below the int64 range. \<^verbatim>\<open>runChecks\<close> returns whenever no
  check both fails and is too slow.
\<close>

lemma slow_check_fails:
  assumes "EnabledChecks config modes = (checks, maxDuration)"
    and "check \<in> set checks"
    and "- 9223372036 \<le> sint maxDuration"
    and "sint maxDuration * 1000000000 < sint (RunTime check change r)"
  shows "((\<forall>c\<in>set checks. \<not> (Run c change r \<noteq> None \<and> tooLong maxDuration (RunTime c change r)))
            \<longrightarrow> runChecks elapsed config change modes r \<noteq> None)
       \<and> (\<forall>printed err. runChecks elapsed config change modes r = Some (printed, err)
            \<longrightarrow> CheckTook (GetName check) (RunTime check change r) \<in> set printed \<and> err \<noteq> None)"
proof -
  have slow: "tooLong maxDuration (RunTime check change r)"
    using assms(3,4) by (rule tooLong_if)
  then have mem: "CheckTook (GetName check) (RunTime check change r) \<in> set (failures maxDuration change r check)"
    by (simp add: failures_def)
  with assms(2) have all: "CheckTook (GetName check) (RunTime check change r)
      \<in> set (concat (map (failures maxDuration change r) checks))"
    by auto
  show ?thesis
    using all concat_failures_le [of checks change r maxDuration]
    by (auto simp: runChecks_eq [OF assms(1)] Let_def split: if_splits)
qed

lemma tooLong_5s_1: "tooLong 1 5000000000"
  by (simp add: tooLong_def second_def word_sless_alt)

lemma not_tooLong_5ns_1: "\<not> tooLong 1 5"
  by (simp add: tooLong_def second_def word_sless_alt)

lemma tooLong_6s_5: "tooLong 5 6000000000"
  by (simp add: tooLong_def second_def word_sless_alt)

text \<open>
  C6: every check that ran for longer than the maximum duration gets a failure
  recorded, also when it returned success. The code does not do so on every input.
  With a maximum duration of 5 seconds and two checks that both take 6 seconds, one
  passing and one failing, three errors are sent into a channel made for two (one
  per check): a send never completes, \<^verbatim>\<open>runChecks\<close> never returns, and nothing is
  printed or returned for the passing slow check, in whichever order the goroutines
  reach the channel.
\<close>

theorem slow_check_not_recorded:
  "Run (stubCheck ''gofmt'' None 6000000000) None () = None
   \<and> sint (5 :: 64 word) * 1000000000 < sint (RunTime (stubCheck ''gofmt'' None 6000000000) None ())
   \<and> runChecks (\<lambda>r. 7)
        (stubConfig [stubCheck ''gofmt'' None 6000000000,
                     stubCheck ''gotest'' (Some (External ''FAIL'')) 6000000000] 5)
        None [PrePush] () = None
   \<and> runChecks (\<lambda>r. 7)
        (stubConfig [stubCheck ''gotest'' (Some (External ''FAIL'')) 6000000000,
                     stubCheck ''gofmt'' None 6000000000] 5)
        None [PrePush] () = None"
  by (simp add: runChecks_def stubConfig_def stubCheck_def goroutine_def callRun_def send_def
      tooLong_6s_5)

lemma concat_failures_Nil:
  "concat (map (failures m change r) cs) = []
     \<longleftrightarrow> (\<forall>c\<in>set cs. Run c change r = None \<and> \<not> tooLong m (RunTime c change r))"
  by (auto simp: failures_def split: option.splits if_splits)

text \<open>
  The error \<^verbatim>\<open>runChecks\<close> returns, when it returns and the maximum duration is one
  whose count of nanoseconds fits int64: it is non-nil if and only if at least one
  check returned an error or ran for longer than the maximum duration, and a non-nil
  result is the "checks failed in" error with the wall-clock time of the whole run.
\<close>

lemma overall_error_iff:
  assumes "EnabledChecks config modes = (checks, maxDuration)"
    and "- 9223372036 \<le> sint maxDuration"
    and "sint maxDuration \<le> 9223372036"
  shows "((\<forall>c\<in>set checks. \<not> (Run c change r \<noteq> None \<and> tooLong maxDuration (RunTime c change r)))
            \<longrightarrow> runChecks elapsed config change modes r \<noteq> None)
       \<and> (\<forall>printed err. runChecks elapsed config change modes r = Some (printed, err)
            \<longrightarrow> (err \<noteq> None \<longleftrightarrow>
                   (\<exists>c\<in>set checks. Run c change r \<noteq> None
                        \<or> sint maxDuration * 1000000000 < sint (RunTime c change r)))
                \<and> (err \<noteq> None \<longrightarrow> err = Some (ChecksFailed (elapsed r))))"
  using concat_failures_le [of checks change r maxDuration]
    concat_failures_Nil [of maxDuration change r checks]
  by (auto simp: runChecks_eq [OF assms(1)] Let_def tooLong_iff [OF assms(2,3)] split: if_splits)

lemma tooLong_3s_2: "tooLong 2 3000000000"
  by (simp add: tooLong_def second_def word_sless_alt)

lemma tooLong_wrapped: "tooLong 9999999999 5"
  by (simp add: tooLong_def second_def word_sless_alt)

text \<open>
  C7: the result of \<^verbatim>\<open>runChecks\<close> is a non-nil error if and only if at least one
  check failed or exceeded the time budget. The code breaks both directions. A
  single check that fails and is too slow sends two errors into a channel made for
  one, and there is no result at all. And with a maximum duration of 9999999999
  seconds the int64 product \<^verbatim>\<open>time.Duration(maxDuration)*time.Second\<close> wraps to a
  negative duration: a passing check that took 5 nanoseconds counts as too slow and
  the result is the "checks failed" error.
\<close>

theorem no_result_or_wrapped_budget:
  "runChecks (\<lambda>r. 7) (stubConfig [stubCheck ''govet'' (Some (External ''vet'')) 3000000000] 2)
      None [PrePush] () = None
   \<and> Run (stubCheck ''gofmt'' None 5) None () = None
   \<and> \<not> sint (9999999999 :: 64 word) * 1000000000 < sint (RunTime (stubCheck ''gofmt'' None 5) None ())
   \<and> runChecks (\<lambda>r. 7) (stubConfig [stubCheck ''gofmt'' None 5] 9999999999) None [PrePush] ()
      = Some ([CheckTook ''gofmt'' 5], Some (ChecksFailed 7))"
  by (simp add: runChecks_def stubConfig_def stubCheck_def goroutine_def callRun_def send_def
      tooLong_3s_2 tooLong_wrapped)

text \<open>
  C8: one outcome per invoked check, never two failure records for the same check.
  The code sends two errors for a check that fails and is too slow. With that check
  alone the channel has room for one error: the second send never completes and
  \<^verbatim>\<open>runChecks\<close> does not return. With a second, passing check there is room, and both
  errors of the first check are printed.
\<close>

theorem failing_slow_check_two_records:
  "runChecks (\<lambda>r. 7) (stubConfig [stubCheck ''gotest'' (Some (External ''FAIL'')) 5000000000] 1)
      None [PrePush] () = None
   \<and> runChecks (\<lambda>r. 7)
        (stubConfig [stubCheck ''gotest'' (Some (External ''FAIL'')) 5000000000,
                     stubCheck ''gofmt'' None 5] 1)
        None [PrePush] ()
      = Some ([External ''FAIL'', CheckTook ''gotest'' 5000000000], Some (ChecksFailed 7))"
  by (simp add: runChecks_def stubConfig_def stubCheck_def goroutine_def callRun_def send_def
      tooLong_5s_1 not_tooLong_5ns_1)

section \<open>Properties of runPreCommit\<close>

text \<open>
  C10: if \<^verbatim>\<open>Stash()\<close> returns an error, \<^verbatim>\<open>runPreCommit\<close> returns that error at once.
  The stash call is the only call made: no \<^verbatim>\<open>Between\<close>, no \<^verbatim>\<open>runChecks\<close> and no
  \<^verbatim>\<open>Restore\<close>, and the repository is left in the state \<^verbatim>\<open>Stash()\<close> left it in.
\<close>

theorem preCommit_stash_error:
  assumes "Stash repo (state w) = ((s, Some e), r1)"
  shows "runPreCommit elapsed repo config w
           = (Some (Some e), \<lparr>state = r1, trace = trace w @ [EvStash s (Some e)]\<rparr>)"
  using assms by (simp add: runPreCommit_def doStash_def)

theorem preCommit_stash_error_witness:
  "runPreCommit (\<lambda>r. 7)
     (stubRepo sha1 ''refs/heads/master'' (False, Some (External ''index.lock exists'')) None
        (\<lambda>p. None) (\<lambda>f t. (Some [''a.go''], None)))
     (stubConfig [stubCheck ''gofmt'' None 5] 10) w0
   = (Some (Some (External ''index.lock exists'')),
      \<lparr>state = (), trace = [EvStash False (Some (External ''index.lock exists''))]\<rparr>)"
proof -
  let ?repo = "stubRepo sha1 ''refs/heads/master'' (False, Some (External ''index.lock exists'')) None
        (\<lambda>p. None) (\<lambda>f t. (Some [''a.go''], None))"
  have "Stash ?repo (state w0) = ((False, Some (External ''index.lock exists'')), ())"
    by (simp add: stubRepo_def w0_def)
  from preCommit_stash_error [OF this] show ?thesis
    by (simp add: w0_def)
qed

text \<open>
  When \<^verbatim>\<open>Stash()\<close> succeeded and reported that it stashed something, and the second
  step returns with the error \<open>primary\<close> (the error of \<^verbatim>\<open>runChecks\<close> when \<^verbatim>\<open>Between\<close>
  gave a change, else the error of \<^verbatim>\<open>Between\<close>), then \<^verbatim>\<open>Restore()\<close> is the last call of
  the hook, the hook returns \<open>primary\<close> if that is an error, and the error of
  \<^verbatim>\<open>Restore()\<close> otherwise.
\<close>

lemma preCommit_restores:
  assumes stash: "Stash repo (state w) = ((True, None), r1)"
    and btw: "Between repo (Current repo) (HEAD repo r1) (IgnorePatterns config) r1
                = ((change, berr), r2)"
    and step2: "(if change \<noteq> None
                 then map_option snd (runChecks elapsed config change [PreCommit] r2)
                 else Some berr) = Some primary"
    and rst: "Restore repo r2 = (rerr, r3)"
  shows "runPreCommit elapsed repo config w =
     (Some (if primary \<noteq> None then primary else rerr),
      \<lparr>state = r3,
       trace = trace w
         @ [EvStash True None,
            EvBetween (Current repo) (HEAD repo r1) (IgnorePatterns config) change berr]
         @ (if change \<noteq> None then [EvRunChecks change [PreCommit]] else [])
         @ [EvRestore rerr]\<rparr>)"
proof (cases "change = None")
  case True
  with assms show ?thesis
    by (simp add: runPreCommit_def doStash_def doBetween_def doRestore_def)
next
  case False
  with assms show ?thesis
    by (auto simp: runPreCommit_def doStash_def doBetween_def doRestore_def doRunChecks_def)
qed

lemma runChecks_govet_fails:
  "runChecks (\<lambda>r. 7) (stubConfig [stubCheck ''govet'' (Some (External ''vet'')) 5] 10) change modes ()
     = Some ([External ''vet''], Some (ChecksFailed 7))"
  by (simp add: runChecks_def stubConfig_def stubCheck_def goroutine_def callRun_def send_def
      tooLong_def second_def word_sless_alt)

lemma runChecks_gofmt_passes:
  "runChecks (\<lambda>r. 7) (stubConfig [stubCheck ''gofmt'' None 5] 10) change modes () = Some ([], None)"
  by (simp add: runChecks_def stubConfig_def stubCheck_def goroutine_def callRun_def send_def
      tooLong_def second_def word_sless_alt)

lemma gitConfig_simps:
  "IgnorePatterns (gitConfig cs m) = []" "EnabledChecks (gitConfig cs m) ms = (cs, m)"
  by (simp_all add: gitConfig_def)

lemma runChecks_git_gofmt_passes:
  "runChecks (\<lambda>r. 7) (gitConfig [gitCheck ''gofmt'' None 5] 10) change modes g = Some ([], None)"
  by (simp add: runChecks_def gitConfig_def gitCheck_def goroutine_def callRun_def send_def
      tooLong_def second_def word_sless_alt)

lemma runChecks_git_gotest_blocks:
  "runChecks (\<lambda>r. 7) (gitConfig [gitCheck ''gotest'' (Some (External ''FAIL'')) 5000000000] 1)
     change modes g = None"
  by (simp add: runChecks_def gitConfig_def gitCheck_def goroutine_def callRun_def send_def
      tooLong_def second_def word_sless_alt)

text \<open>
  C5: once \<^verbatim>\<open>Stash()\<close> has stashed something, \<^verbatim>\<open>Restore()\<close> is called also when the
  checks fail. The code does not get there on every input: with uncommitted edits
  and one enabled check that fails and is too slow, \<^verbatim>\<open>runChecks\<close> never returns (its
  goroutine sends two errors into a channel made for one), so \<^verbatim>\<open>runPreCommit\<close> never
  returns and never calls \<^verbatim>\<open>Restore()\<close>: the edits stay stashed away.
\<close>

theorem preCommit_blocked_before_restore:
  "runPreCommit (\<lambda>r. 7) gitRepo
     (gitConfig [gitCheck ''gotest'' (Some (External ''FAIL'')) 5000000000] 1) onMaster
   = (None,
      \<lparr>state = \<lparr>gitHead = sha2, gitRef = ''refs/heads/master'',
                 gitBranches = [(''refs/heads/master'', sha2), (''refs/heads/a'', sha1)],
                 gitDirty = False, gitStashed = True\<rparr>,
       trace = [EvStash True None, EvBetween [] sha2 [] (Some [''a.go'']) None,
                EvRunChecks (Some [''a.go'']) [PreCommit]]\<rparr>)"
  by (simp add: runPreCommit_def doStash_def doBetween_def doRunChecks_def gitRepo_def onMaster_def
      gitConfig_simps runChecks_git_gotest_blocks)

section \<open>Properties of runPrePush\<close>

subsection \<open>The examples evaluated\<close>

lemma match_new_branch:
  "FindStringSubmatch ''refs/heads/a 1111111111111111111111111111111111111111 refs/heads/a 0000000000000000000000000000000000000000''
     = Some (''refs/heads/a'', sha1, ''refs/heads/a'', gitNilCommit)"
  by code_simp

lemma match_deletion:
  "FindStringSubmatch ''(delete) 0000000000000000000000000000000000000000 refs/heads/a 1111111111111111111111111111111111111111''
     = Some (''(delete)'', gitNilCommit, ''refs/heads/a'', sha1)"
  by code_simp

lemma match_update:
  "FindStringSubmatch ''refs/heads/b 2222222222222222222222222222222222222222 refs/heads/b 1111111111111111111111111111111111111111''
     = Some (''refs/heads/b'', sha2, ''refs/heads/b'', sha1)"
  by code_simp

lemma match_garbage: "FindStringSubmatch ''refs/heads/a 1111 refs/heads/a 0000'' = None"
  by code_simp

lemma sha_neq: "sha1 \<noteq> gitNilCommit" "sha2 \<noteq> gitNilCommit" "sha1 \<noteq> sha2" "sha2 \<noteq> sha1"
  by (simp_all add: sha1_def sha2_def gitNilCommit_def)

lemma IgnorePatterns_stubConfig: "IgnorePatterns (stubConfig cs m) = []"
  by (simp add: stubConfig_def)

lemmas hook_defs = runPrePush_def body_def switchTo_def deferred_def
  doStash_def doCheckout_def doBetween_def doRestore_def doRunChecks_def

lemmas stub_simps = IgnorePatterns_stubConfig runChecks_govet_fails runChecks_gofmt_passes
  sha_neq stubRepo_def w0_def

lemma sha3_neq: "sha1 \<noteq> sha3" "sha2 \<noteq> sha3" "sha3 \<noteq> sha1" "sha3 \<noteq> sha2"
  by (simp_all add: sha1_def sha2_def sha3_def)

lemma runChecks_passing: "runChecks (\<lambda>r. 7) passing change modes () = Some ([], None)"
  by (simp add: passing_def runChecks_gofmt_passes)

lemma IgnorePatterns_passing: "IgnorePatterns passing = []"
  by (simp add: passing_def IgnorePatterns_stubConfig)

subsection \<open>One line of input\<close>

text \<open>
  C1, as the code has it: a line whose local sha (the second field) is the all-zero
  commit is a deletion and is skipped. The body makes no call at all, so no change
  set is computed and no check runs for it, and the loop goes on with the next line
  with its variables and the repository as they were.
\<close>

theorem deleted_ref_skipped:
  assumes "FindStringSubmatch line = Some (lref, gitNilCommit, rref, rsha)"
  shows "body elapsed repo config line v w = (Continue, v, w)
       \<and> loop elapsed repo config rerr (line # rest) v w = loop elapsed repo config rerr rest v w"
  using assms by (simp add: body_def)

theorem deleted_ref_skipped_witness:
  "body (\<lambda>r. 7)
     (stubRepo sha2 ''refs/heads/master'' (True, None) None (\<lambda>p. None)
        (\<lambda>f t. (Some [''a.go''], None)))
     (stubConfig [stubCheck ''govet'' (Some (External ''vet'')) 5] 10)
     ''(delete) 0000000000000000000000000000000000000000 refs/heads/a 1111111111111111111111111111111111111111''
     \<lparr>curr = sha2, stashed = False, triedToStash = False\<rparr> w0
   = (Continue, \<lparr>curr = sha2, stashed = False, triedToStash = False\<rparr>, w0)"
  using deleted_ref_skipped [OF match_deletion] by blast

text \<open>
  C1, as stated, fails: for the line of the specification's example, whose remote sha
  (the fourth field) is all-zero and whose local sha is not, the hook stashes, checks
  the local sha out, computes the change set from the initial commit and runs the
  checks, whose failure it returns.
\<close>

theorem remote_nil_not_skipped:
  "runPrePush (\<lambda>r. 7)
     (stubRepo sha2 ''refs/heads/master'' (True, None) None (\<lambda>p. None)
        (\<lambda>f t. (Some [''a.go''], None)))
     (stubConfig [stubCheck ''govet'' (Some (External ''vet'')) 5] 10)
     \<lparr>lines = [''refs/heads/a 1111111111111111111111111111111111111111 refs/heads/a 0000000000000000000000000000000000000000''],
      readErr = EOF\<rparr> w0
   = (Some (Some (ChecksFailed 7)),
      \<lparr>state = (),
       trace = [EvStash True None, EvCheckout sha1 None,
                EvBetween ''4b825dc642cb6eb9a060e54bf8d69288fbee4904'' sha1 [] (Some [''a.go'']) None,
                EvRunChecks (Some [''a.go'']) [PrePush],
                EvCheckout ''refs/heads/master'' None, EvRestore None]\<rparr>)"
  by (simp add: hook_defs stub_simps match_new_branch)

text \<open>
  C2, as stated, fails: for a line whose local sha is all-zero no change set is
  computed at all; the hook makes no call.
\<close>

theorem local_nil_no_diff:
  "runPrePush (\<lambda>r. 7)
     (stubRepo sha2 ''refs/heads/master'' (True, None) None (\<lambda>p. None)
        (\<lambda>f t. (Some [''a.go''], None)))
     (stubConfig [stubCheck ''govet'' (Some (External ''vet'')) 5] 10)
     \<lparr>lines = [''(delete) 0000000000000000000000000000000000000000 refs/heads/a 1111111111111111111111111111111111111111''],
      readErr = EOF\<rparr> w0
   = (Some None, \<lparr>state = (), trace = []\<rparr>)"
  by (simp add: hook_defs stub_simps match_deletion)

text \<open>
  C2, as the code has it: for a line whose remote sha is the all-zero commit (a ref
  the remote does not have yet) and whose local sha is not, once the local sha is
  the checked-out commit the next call is \<^verbatim>\<open>Between\<close> from \<^verbatim>\<open>scm.GitInitialCommit\<close> to
  the local sha.
\<close>

theorem new_remote_ref_diff_from_root:
  assumes "FindStringSubmatch line = Some (lref, to, rref, gitNilCommit)"
    and "to \<noteq> gitNilCommit"
    and "switchTo repo to v w = (None, v2, w2)"
  shows "\<exists>fl w3 change err r3 rest.
           body elapsed repo config line v w = (fl, v2, w3)
         \<and> Between repo (GitInitialCommit repo) to (IgnorePatterns config) (state w2)
               = ((change, err), r3)
         \<and> trace w3 = trace w2
               @ EvBetween (GitInitialCommit repo) to (IgnorePatterns config) change err # rest"
  using assms
  by (auto simp: body_def doBetween_def doRunChecks_def split: prod.splits option.splits)

theorem new_remote_ref_diff_from_root_witness:
  "\<exists>fl w3 rest.
     body (\<lambda>r. 7)
       (stubRepo sha2 ''refs/heads/master'' (True, None) None (\<lambda>p. None)
          (\<lambda>f t. (None, Some (External ''bad revision''))))
       (stubConfig [stubCheck ''gofmt'' None 5] 10)
       ''refs/heads/a 1111111111111111111111111111111111111111 refs/heads/a 0000000000000000000000000000000000000000''
       \<lparr>curr = sha2, stashed = False, triedToStash = False\<rparr> w0
     = (fl, \<lparr>curr = sha1, stashed = True, triedToStash = True\<rparr>, w3)
   \<and> trace w3 = [EvStash True None, EvCheckout sha1 None]
        @ EvBetween ''4b825dc642cb6eb9a060e54bf8d69288fbee4904'' sha1 [] None
            (Some (External ''bad revision'')) # rest"
proof -
  let ?repo = "stubRepo sha2 ''refs/heads/master'' (True, None) None (\<lambda>p. None)
          (\<lambda>f t. (None, Some (External ''bad revision'')))"
  let ?config = "stubConfig [stubCheck ''gofmt'' None 5] 10"
  let ?v = "\<lparr>curr = sha2, stashed = False, triedToStash = False\<rparr>"
  have sw: "switchTo ?repo sha1 ?v w0
      = (None, \<lparr>curr = sha1, stashed = True, triedToStash = True\<rparr>,
         \<lparr>state = (), trace = [EvStash True None, EvCheckout sha1 None]\<rparr>)"
    by (simp add: switchTo_def doStash_def doCheckout_def stub_simps)
  from new_remote_ref_diff_from_root [OF match_new_branch sha_neq(1) sw, of "\<lambda>r. 7" ?config]
  show ?thesis
    by (simp add: stub_simps)
qed

text \<open>
  C3: for a line with a local sha that is present (40 hex digits, not the all-zero
  commit that stands for no commit) and an all-zero remote sha, once the local sha is
  the checked-out commit and \<^verbatim>\<open>Between\<close> returns without error, the body has computed
  the change set from \<^verbatim>\<open>scm.GitInitialCommit\<close> to the local sha and run the pre-push
  checks on that change set; what \<^verbatim>\<open>runChecks\<close> does decides how the body ends.
\<close>

theorem new_branch_checked_from_root:
  assumes "FindStringSubmatch line = Some (lref, to, rref, gitNilCommit)"
    and "to \<noteq> gitNilCommit"
    and "switchTo repo to v w = (None, v2, w2)"
    and "Between repo (GitInitialCommit repo) to (IgnorePatterns config) (state w2)
           = ((change, None), r3)"
  shows "body elapsed repo config line v w =
           ((case runChecks elapsed config change [PrePush] r3 of
               None \<Rightarrow> Never
             | Some (printed, None) \<Rightarrow> Continue
             | Some (printed, Some e) \<Rightarrow> Return (Some e)),
            v2,
            \<lparr>state = r3,
             trace = trace w2
               @ [EvBetween (GitInitialCommit repo) to (IgnorePatterns config) change None,
                  EvRunChecks change [PrePush]]\<rparr>)"
  using assms
  by (auto simp: body_def doBetween_def doRunChecks_def split: prod.splits option.splits)

theorem new_branch_checked_from_root_witness:
  "body (\<lambda>r. 7)
     (stubRepo sha2 ''refs/heads/master'' (True, None) None (\<lambda>p. None)
        (\<lambda>f t. (Some [''a.go''], None)))
     (stubConfig [stubCheck ''gofmt'' None 5] 10)
     ''refs/heads/a 1111111111111111111111111111111111111111 refs/heads/a 0000000000000000000000000000000000000000''
     \<lparr>curr = sha2, stashed = False, triedToStash = False\<rparr> w0
   = (Continue, \<lparr>curr = sha1, stashed = True, triedToStash = True\<rparr>,
      \<lparr>state = (),
       trace = [EvStash True None, EvCheckout sha1 None,
                EvBetween ''4b825dc642cb6eb9a060e54bf8d69288fbee4904'' sha1 [] (Some [''a.go'']) None,
                EvRunChecks (Some [''a.go'']) [PrePush]]\<rparr>)"
proof -
  let ?repo = "stubRepo sha2 ''refs/heads/master'' (True, None) None (\<lambda>p. None)
        (\<lambda>f t. (Some [''a.go''], None))"
  let ?config = "stubConfig [stubCheck ''gofmt'' None 5] 10"
  let ?v = "\<lparr>curr = sha2, stashed = False, triedToStash = False\<rparr>"
  let ?w2 = "\<lparr>state = (), trace = [EvStash True None, EvCheckout sha1 None]\<rparr>
               :: (unit, string list) world"
  have sw: "switchTo ?repo sha1 ?v w0
      = (None, \<lparr>curr = sha1, stashed = True, triedToStash = True\<rparr>, ?w2)"
    by (simp add: switchTo_def doStash_def doCheckout_def stub_simps)
  have bt: "Between ?repo (GitInitialCommit ?repo) sha1 (IgnorePatterns ?config) (state ?w2)
              = ((Some [''a.go''], None), ())"
    by (simp add: stubRepo_def)
  from new_branch_checked_from_root [OF match_new_branch sha_neq(1) sw bt, of "\<lambda>r. 7"]
  show ?thesis
    by (simp add: stub_simps)
qed

subsection \<open>The loop and the deferred function\<close>

lemma lastCheckout_append:
  "lastCheckout c (xs @ ys) = lastCheckout (lastCheckout c xs) ys"
  by (induction c xs rule: lastCheckout.induct) auto

lemma stashMade_append: "stashMade (xs @ ys) \<longleftrightarrow> stashMade xs \<or> stashMade ys"
  by (simp add: stashMade_def)

lemma stashCalls_append: "stashCalls (xs @ ys) = stashCalls xs + stashCalls ys"
  by (simp add: stashCalls_def)

lemma stashCalls_0_not_made: "stashCalls evs = 0 \<Longrightarrow> \<not> stashMade evs"
proof (induction evs)
  case Nil
  then show ?case by (simp add: stashMade_def)
next
  case (Cons ev evs)
  then show ?case by (cases ev) (auto simp: stashMade_def stashCalls_def split: if_splits)
qed

lemma switchTo_inv:
  assumes "loopInv previous v evs" and "trace w = t0 @ evs"
    and "switchTo repo to v w = (e, v1, w1)"
  shows "\<exists>evs1. trace w1 = t0 @ evs1 \<and> loopInv previous v1 evs1"
proof (cases "to = curr v")
  case True
  with assms show ?thesis by (auto simp: switchTo_def)
next
  case False
  show ?thesis
  proof (cases "triedToStash v")
    case True
    with False assms show ?thesis
      by (auto simp: switchTo_def doCheckout_def loopInv_def lastCheckout_append
          stashMade_append stashCalls_append stashMade_def stashCalls_def
          split: prod.splits)
  next
    case nt: False
    with assms(1) have z: "stashCalls evs = 0" and nm: "\<not> stashMade evs"
      by (auto simp: loopInv_def dest: stashCalls_0_not_made)
    obtain s err r1 where st: "Stash repo (state w) = ((s, err), r1)"
      by (metis prod.exhaust)
    show ?thesis
    proof (cases err)
      case None
      with False nt assms st z nm show ?thesis
        by (auto simp: switchTo_def doStash_def doCheckout_def loopInv_def lastCheckout_append
            stashMade_append stashCalls_append stashMade_def stashCalls_def
            split: prod.splits)
    next
      case (Some a)
      with False nt assms st z nm show ?thesis
        by (auto simp: switchTo_def doStash_def loopInv_def lastCheckout_append
            stashMade_append stashCalls_append stashMade_def stashCalls_def)
    qed
  qed
qed

lemma loopInv_Between:
  "loopInv previous v evs \<Longrightarrow> loopInv previous v (evs @ [EvBetween f t i c e])"
  by (simp add: loopInv_def lastCheckout_append stashMade_append stashCalls_append
      stashMade_def stashCalls_def)

lemma loopInv_RunChecks:
  "loopInv previous v evs \<Longrightarrow> loopInv previous v (evs @ [EvRunChecks c ms])"
  by (simp add: loopInv_def lastCheckout_append stashMade_append stashCalls_append
      stashMade_def stashCalls_def)

lemma body_inv:
  assumes "loopInv previous v evs" and "trace w = t0 @ evs"
    and "body elapsed repo config line v w = (fl, v1, w1)"
  shows "\<exists>evs1. trace w1 = t0 @ evs1 \<and> loopInv previous v1 evs1"
proof (cases "FindStringSubmatch line")
  case None
  with assms show ?thesis by (auto simp: body_def)
next
  case (Some m)
  obtain m1 to m3 "from" where m: "m = (m1, to, m3, from)" by (cases m) auto
  show ?thesis
  proof (cases "to = gitNilCommit")
    case True
    with assms Some m show ?thesis by (auto simp: body_def)
  next
    case False
    obtain e v2 w2 where sw: "switchTo repo to v w = (e, v2, w2)"
      by (metis prod.exhaust)
    from switchTo_inv [OF assms(1,2) sw] obtain evs2 where
      t2: "trace w2 = t0 @ evs2" and i2: "loopInv previous v2 evs2" by blast
    show ?thesis
    proof (cases e)
      case (Some a)
      with assms(3) \<open>FindStringSubmatch line = Some m\<close> m False sw t2 i2 show ?thesis
        by (auto simp: body_def)
    next
      case None
      with assms(3) \<open>FindStringSubmatch line = Some m\<close> m False sw t2
        loopInv_Between [OF i2] loopInv_RunChecks [OF loopInv_Between [OF i2]]
      show ?thesis
        by (auto simp: body_def doBetween_def doRunChecks_def
            split: prod.splits option.splits if_splits)
    qed
  qed
qed

lemma loop_inv:
  assumes "loopInv previous v evs" and "trace w = t0 @ evs"
    and "loop elapsed repo config rerr ls v w = (res, v1, w1)"
  shows "\<exists>evs1. trace w1 = t0 @ evs1 \<and> loopInv previous v1 evs1"
  using assms
proof (induction ls arbitrary: v w evs)
  case Nil
  then show ?case by auto
next
  case (Cons line rest)
  obtain fl v2 w2 where b: "body elapsed repo config line v w = (fl, v2, w2)"
    by (metis prod.exhaust)
  from body_inv [OF Cons.prems(1,2) b] obtain evs2 where
    t2: "trace w2 = t0 @ evs2" and i2: "loopInv previous v2 evs2" by blast
  show ?case
  proof (cases fl)
    case Continue
    with Cons.prems(3) b have "loop elapsed repo config rerr rest v2 w2 = (res, v1, w1)"
      by simp
    from Cons.IH [OF i2 t2 this] show ?thesis .
  next
    case (Return x)
    with Cons.prems(3) b t2 i2 show ?thesis by auto
  next
    case Never
    with Cons.prems(3) b t2 i2 show ?thesis by auto
  qed
qed

lemma deferred_trace:
  assumes "deferred repo previous previousRef v err w = (err1, w1)"
  shows "\<exists>e1 e2.
      trace w1 = trace w
        @ (if curr v \<noteq> previous
           then [EvCheckout (if previousRef = [] then previous else previousRef) e1] else [])
        @ (if stashed v then [EvRestore e2] else [])
    \<and> err1 = (if err \<noteq> None then err
              else if curr v \<noteq> previous \<and> e1 \<noteq> None then e1
              else if stashed v then e2 else None)"
proof -
  let ?p = "if previousRef = [] then previous else previousRef"
  obtain c1 rc where co: "Checkout repo ?p (state w) = (c1, rc)"
    by (metis prod.exhaust)
  obtain c2 rr where re: "Restore repo (if curr v \<noteq> previous then rc else state w) = (c2, rr)"
    by (metis prod.exhaust)
  from assms co re have
    "trace w1 = trace w
        @ (if curr v \<noteq> previous then [EvCheckout ?p c1] else [])
        @ (if stashed v then [EvRestore c2] else [])
    \<and> err1 = (if err \<noteq> None then err
              else if curr v \<noteq> previous \<and> c1 \<noteq> None then c1
              else if stashed v then c2 else None)"
    by (auto simp: deferred_def doCheckout_def doRestore_def split: if_splits)
  then show ?thesis by blast
qed

lemma loopInv_init:
  "loopInv previous \<lparr>curr = previous, stashed = False, triedToStash = False\<rparr> []"
  by (simp add: loopInv_def stashMade_def stashCalls_def)

lemma run_newBranchThenGarbage:
  "runPrePush (\<lambda>r. 7) (popFails sha2) passing newBranchThenGarbage w0
   = (Some (Some (UnexpectedStdin (''refs/heads/a 1111 refs/heads/a 0000'' @ [CHR 0x0A]))),
      \<lparr>state = (),
       trace = [EvStash True None, EvCheckout sha1 None,
                EvBetween ''4b825dc642cb6eb9a060e54bf8d69288fbee4904'' sha1 [] (Some [''a.go'']) None,
                EvRunChecks (Some [''a.go'']) [PrePush],
                EvCheckout ''refs/heads/master'' None,
                EvRestore (Some (External ''stash pop failed''))]\<rparr>)"
  by (simp add: hook_defs stub_simps match_new_branch match_garbage popFails_def
      newBranchThenGarbage_def runChecks_passing IgnorePatterns_passing)

lemma run_twoUpdates:
  "runPrePush (\<lambda>r. 7) (popFails sha3) passing twoUpdates w0
   = (Some (Some (External ''stash pop failed'')),
      \<lparr>state = (),
       trace = [EvStash True None, EvCheckout sha1 None,
                EvBetween ''4b825dc642cb6eb9a060e54bf8d69288fbee4904'' sha1 [] (Some [''a.go'']) None,
                EvRunChecks (Some [''a.go'']) [PrePush],
                EvCheckout sha2 None,
                EvBetween sha1 sha2 [] (Some [''a.go'']) None,
                EvRunChecks (Some [''a.go'']) [PrePush],
                EvCheckout ''refs/heads/master'' None,
                EvRestore (Some (External ''stash pop failed''))]\<rparr>)"
  by (simp add: hook_defs stub_simps sha3_neq match_new_branch match_update popFails_def
      twoUpdates_def runChecks_passing IgnorePatterns_passing)

text \<open>
  C9: in one run of \<^verbatim>\<open>runPrePush\<close>, whatever the input and whatever the repository
  and the checks do, also when the run never returns, \<^verbatim>\<open>Stash()\<close> is called at most
  once.
\<close>

theorem stash_at_most_once:
  "\<exists>evs. trace (snd (runPrePush elapsed repo config inp w)) = trace w @ evs \<and> stashCalls evs \<le> 1"
proof -
  let ?previous = "HEAD repo (state w)"
  let ?v0 = "\<lparr>curr = ?previous, stashed = False, triedToStash = False\<rparr>"
  obtain res v1 w1 where
    l: "loop elapsed repo config (readErr inp) (lines inp) ?v0 w = (res, v1, w1)"
    by (metis prod.exhaust)
  have "trace w = trace w @ []" by simp
  from loop_inv [OF loopInv_init this l] obtain evs where
    t1: "trace w1 = trace w @ evs" and i1: "loopInv ?previous v1 evs" by blast
  from i1 have c1: "stashCalls evs \<le> 1" by (simp add: loopInv_def split: if_splits)
  show ?thesis
  proof (cases res)
    case None
    with l t1 c1 show ?thesis by (auto simp: runPrePush_def Let_def)
  next
    case (Some err)
    obtain err1 w2 where d: "deferred repo ?previous (Ref repo (state w)) v1 err w1 = (err1, w2)"
      by (metis prod.exhaust)
    from deferred_trace [OF d] obtain e1 e2 where
      t2: "trace w2 = trace w1
        @ (if curr v1 \<noteq> ?previous
           then [EvCheckout (if Ref repo (state w) = [] then ?previous else Ref repo (state w)) e1]
           else [])
        @ (if stashed v1 then [EvRestore e2] else [])" by blast
    have r: "snd (runPrePush elapsed repo config inp w) = w2"
      using l Some d by (simp add: runPrePush_def Let_def)
    have "stashCalls (evs
        @ (if curr v1 \<noteq> ?previous
           then [EvCheckout (if Ref repo (state w) = [] then ?previous else Ref repo (state w)) e1]
           else [])
        @ (if stashed v1 then [EvRestore e2] else [])) \<le> 1"
      using c1 by (simp add: stashCalls_def)
    with r t1 t2 show ?thesis by auto
  qed
qed

theorem stash_at_most_once_witness:
  "\<exists>evs. [EvStash True None, EvCheckout sha1 None,
           EvBetween ''4b825dc642cb6eb9a060e54bf8d69288fbee4904'' sha1 [] (Some [''a.go'']) None,
           EvRunChecks (Some [''a.go'']) [PrePush],
           EvCheckout sha2 None,
           EvBetween sha1 sha2 [] (Some [''a.go'']) None,
           EvRunChecks (Some [''a.go'']) [PrePush],
           EvCheckout ''refs/heads/master'' None,
           EvRestore (Some (External ''stash pop failed''))]
          = trace (w0 :: (unit, string list) world) @ evs
        \<and> stashCalls evs \<le> 1"
  using stash_at_most_once [of "\<lambda>r. 7" "popFails sha3" passing twoUpdates w0]
  by (simp add: run_twoUpdates)

text \<open>
  The calls of the deferred function, on every run of \<^verbatim>\<open>runPrePush\<close> that returns,
  the loop having ended with the error \<open>primary\<close>: first, if the commit the loop
  checked out last is not the commit that was checked out at the start, a
  \<^verbatim>\<open>Checkout\<close> of the ref recorded at the start, or of that commit when the ref was
  empty; then, if the \<^verbatim>\<open>Stash()\<close> of the loop reported a stash, a \<^verbatim>\<open>Restore()\<close>. The
  error returned is \<open>primary\<close> unless that is nil; only then it is the error of the
  checkout, or after it that of the restore.
\<close>

lemma prePush_cleanup:
  assumes "runPrePush elapsed repo config inp w = (Some err, w')"
  shows "\<exists>primary v1 w1 evs e1 e2.
      loop elapsed repo config (readErr inp) (lines inp)
        \<lparr>curr = HEAD repo (state w), stashed = False, triedToStash = False\<rparr> w
        = (Some primary, v1, w1)
    \<and> trace w1 = trace w @ evs
    \<and> trace w' = trace w1
        @ (if lastCheckout (HEAD repo (state w)) evs \<noteq> HEAD repo (state w)
           then [EvCheckout (if Ref repo (state w) = [] then HEAD repo (state w)
                             else Ref repo (state w)) e1]
           else [])
        @ (if stashMade evs then [EvRestore e2] else [])
    \<and> err = (if primary \<noteq> None then primary
             else if lastCheckout (HEAD repo (state w)) evs \<noteq> HEAD repo (state w) \<and> e1 \<noteq> None
                  then e1
             else if stashMade evs then e2 else None)"
proof -
  let ?previous = "HEAD repo (state w)"
  let ?v0 = "\<lparr>curr = ?previous, stashed = False, triedToStash = False\<rparr>"
  obtain res v1 w1 where
    l: "loop elapsed repo config (readErr inp) (lines inp) ?v0 w = (res, v1, w1)"
    by (metis prod.exhaust)
  have "trace w = trace w @ []" by simp
  from loop_inv [OF loopInv_init this l] obtain evs where
    t1: "trace w1 = trace w @ evs" and i1: "loopInv ?previous v1 evs" by blast
  from i1 have cu: "curr v1 = lastCheckout ?previous evs" and sm: "stashed v1 = stashMade evs"
    by (simp_all add: loopInv_def)
  from assms l obtain primary where res: "res = Some primary"
    by (cases res) (auto simp: runPrePush_def Let_def)
  from assms l res have d: "deferred repo ?previous (Ref repo (state w)) v1 primary w1 = (err, w')"
    by (auto simp: runPrePush_def Let_def split: prod.splits)
  from deferred_trace [OF d] obtain e1 e2 where
    tr: "trace w' = trace w1
        @ (if curr v1 \<noteq> ?previous
           then [EvCheckout (if Ref repo (state w) = [] then ?previous else Ref repo (state w)) e1]
           else [])
        @ (if stashed v1 then [EvRestore e2] else [])"
    and er: "err = (if primary \<noteq> None then primary
              else if curr v1 \<noteq> ?previous \<and> e1 \<noteq> None then e1
              else if stashed v1 then e2 else None)"
    by blast
  from l res have "loop elapsed repo config (readErr inp) (lines inp) ?v0 w = (Some primary, v1, w1)"
    by simp
  with t1 tr er show ?thesis
    unfolding cu sm by blast
qed

lemma sha_no_branch:
  "sha1 \<noteq> ''refs/heads/master''" "sha1 \<noteq> ''refs/heads/a''"
  "sha2 \<noteq> ''refs/heads/master''" "sha2 \<noteq> ''refs/heads/a''"
  by (simp_all add: sha1_def sha2_def)

text \<open>
  C4: on every exit path the cleanup puts the work tree back on the reference that
  was checked out at the start. The code compares commits, \<^verbatim>\<open>curr != previous\<close>, not
  references. With \<^verbatim>\<open>refs/heads/master\<close> checked out at commit 2222... and two lines
  to push, the first for commit 1111... and the second for commit 2222..., the loop
  checks out 1111... and then 2222... by its sha, which detaches the head; at the end
  \<open>curr\<close> equals \<open>previous\<close>, the deferred function makes no checkout, and the hook
  returns nil with the head detached instead of on \<^verbatim>\<open>refs/heads/master\<close>.
\<close>

theorem cleanup_leaves_head_detached:
  "Ref gitRepo (state onMaster) = ''refs/heads/master''
   \<and> runPrePush (\<lambda>r. 7) gitRepo (gitConfig [gitCheck ''gofmt'' None 5] 10) twoUpdates onMaster
     = (Some None,
        \<lparr>state = \<lparr>gitHead = sha2, gitRef = [],
                   gitBranches = [(''refs/heads/master'', sha2), (''refs/heads/a'', sha1)],
                   gitDirty = True, gitStashed = False\<rparr>,
         trace = [EvStash True None, EvCheckout sha1 None,
                  EvBetween ''4b825dc642cb6eb9a060e54bf8d69288fbee4904'' sha1 [] (Some [''a.go'']) None,
                  EvRunChecks (Some [''a.go'']) [PrePush],
                  EvCheckout sha2 None,
                  EvBetween sha1 sha2 [] (Some [''a.go'']) None,
                  EvRunChecks (Some [''a.go'']) [PrePush],
                  EvRestore None]\<rparr>)"
  by (simp add: hook_defs gitRepo_def onMaster_def twoUpdates_def match_new_branch match_update
      sha_neq gitConfig_simps runChecks_git_gofmt_passes sha_no_branch Let_def)

end
